theory Spec2Isabelle
  imports Main "HOL-Library.Sublist"
begin

section \<open>Rows and their JSON text\<close>

text \<open>
  \<^verbatim>\<open>fastcsv.parse({ headers: true })\<close> hands every CSV line to the \<^verbatim>\<open>'data'\<close> listener
  as an object whose keys are the header names and whose values are strings. A row is
  modelled as the list of its (key, value) properties in enumeration order. Strings are
  lists of bytes (the UTF-8 text of the file).
\<close>

type_synonym row = "(string \<times> string) list"

definition hex_digit :: "nat \<Rightarrow> char" where
  "hex_digit n = ''0123456789abcdef'' ! (n mod 16)"

text \<open>
  \<^verbatim>\<open>JSON.stringify\<close> on a string: the two-character escapes for backspace, tab, line feed,
  form feed, carriage return, the double quote and the backslash, \<^verbatim>\<open>\u00XX\<close> for the
  other control characters, and every other character unchanged.
\<close>

definition quote_char :: "char \<Rightarrow> string" where
  "quote_char c =
     (if c = CHR 0x08 then [CHR 0x5C, CHR ''b'']
      else if c = CHR 0x09 then [CHR 0x5C, CHR ''t'']
      else if c = CHR 0x0A then [CHR 0x5C, CHR ''n'']
      else if c = CHR 0x0C then [CHR 0x5C, CHR ''f'']
      else if c = CHR 0x0D then [CHR 0x5C, CHR ''r'']
      else if c = CHR 0x22 then [CHR 0x5C, CHR 0x22]
      else if c = CHR 0x5C then [CHR 0x5C, CHR 0x5C]
      else if (of_char c :: nat) < 0x20 then
        [CHR 0x5C, CHR ''u'', CHR ''0'', CHR ''0'',
         hex_digit (of_char c div 16), hex_digit (of_char c mod 16)]
      else [c])"

definition quote_json :: "string \<Rightarrow> string" where
  "quote_json s = [CHR 0x22] @ concat (map quote_char s) @ [CHR 0x22]"

text \<open>\<^verbatim>\<open>Array.prototype.join\<close>: the separator stands between the elements only.\<close>

fun join :: "string \<Rightarrow> string list \<Rightarrow> string" where
  "join sep [] = []"
| "join sep [x] = x"
| "join sep (x # y # ys) = x @ sep @ join sep (y # ys)"

definition property_json :: "string \<times> string \<Rightarrow> string" where
  "property_json kv = quote_json (fst kv) @ '':'' @ quote_json (snd kv)"

definition JSON_stringify :: "row \<Rightarrow> string" where
  "JSON_stringify r = ''{'' @ join '','' (map property_json r) @ ''}''"

text \<open>Decimal text of a number, as a template literal prints it.\<close>

definition digit_char :: "nat \<Rightarrow> char" where
  "digit_char n = ''0123456789'' ! (n mod 10)"

function show_nat :: "nat \<Rightarrow> string" where
  "show_nat n = (if n < 10 then [digit_char n] else show_nat (n div 10) @ [digit_char (n mod 10)])"
  by pat_completeness auto
termination
  by (relation "measure id") auto

declare show_nat.simps [simp del]

section \<open>One job: \<^verbatim>\<open>insertDataWithSummary\<close>\<close>

text \<open>
  The function returns a promise and registers three listeners on the parser stream.
  The \<^verbatim>\<open>'data'\<close> and \<^verbatim>\<open>'end'\<close> listeners are \<^verbatim>\<open>async\<close>: at
  \<^verbatim>\<open>await db.transaction(...)\<close> the listener returns to the stream, which goes on emitting,
  and the rest of the listener runs when the awaited promise settles. The code between
  two \<^verbatim>\<open>await\<close>s runs without interruption, so the job is a state machine whose steps
  are these pieces of code, and the order in which the stream and the database make them
  run is the schedule, an input of the model.

  The variables the listeners share are \<^verbatim>\<open>rows\<close> and \<^verbatim>\<open>totalRowCount\<close>; \<open>settled\<close> is
  the state of the returned promise (the first \<^verbatim>\<open>resolve\<close> or \<^verbatim>\<open>reject\<close> wins, later calls
  do nothing); \<open>txs\<close> are the transactions that have been started and have not settled,
  each with the listener that awaits it; \<open>attempts\<close> records the argument of every
  \<^verbatim>\<open>insert(rows)\<close> as it is when the statement is issued; \<open>failed_log\<close> is the content
  of \<^verbatim>\<open>failed_rows.log\<close>; \<open>console\<close> are the lines printed; \<open>unhandled\<close> counts the
  exceptions that nothing catches: an exception that leaves an \<^verbatim>\<open>async\<close> listener (an
  unhandled rejection) and an \<^verbatim>\<open>'error'\<close> of a stream that has no listener for it. The
  runtime ends the process at the first one.
\<close>

text \<open>
  \<open>Resolved n\<close> is \<^verbatim>\<open>resolve(totalRowCount)\<close>, and \<open>Rejected n msg\<close> is
  \<^verbatim>\<open>reject({ totalRowCount, message })\<close>.
\<close>

datatype outcome = Resolved nat | Rejected nat string

datatype listener = OnData | OnEnd

text \<open>
  A transaction is \<open>Started\<close> when \<^verbatim>\<open>db.transaction\<close> has been called and its callback
  has not, \<open>Inserting\<close> while the callback awaits the insert, \<open>BodyDone\<close> when the
  callback has returned and \<open>BodyThrew\<close> when it has thrown.
\<close>

datatype phase = Started | Inserting | BodyDone | BodyThrew

text \<open>
  How the promise of \<^verbatim>\<open>db.transaction\<close> settles: fulfilled, or rejected; with a rejection
  comes whether the append that the \<^verbatim>\<open>catch\<close> block attempts will succeed.
\<close>

datatype tx_result = Committed | Failed bool

text \<open>
  The events of a schedule. \<open>Data r\<close>, \<open>End\<close> and \<open>Error e\<close> are the events of the
  parser stream (\<open>e\<close> is the error as the template literal prints it); \<open>ReadError\<close> is
  an \<^verbatim>\<open>'error'\<close> of the file stream piped into the parser, which has no listener
  (\<^verbatim>\<open>pipe\<close> returns the parser, and the three listeners are registered on it). The others
  come from the database library and name a transaction by its position in \<open>txs\<close>: \<open>Body i\<close>, the
  transaction has begun and its callback is called; \<open>InsertDone i ok\<close>, its insert is
  fulfilled or rejected; \<open>TxDone i res\<close>, the promise of \<^verbatim>\<open>db.transaction\<close> settles. An
  event that names no transaction, or one that is not in the phase for it, changes
  nothing.
\<close>

datatype event =
    Data row
  | End
  | Error string
  | ReadError
  | Body nat
  | InsertDone nat bool
  | TxDone nat tx_result

record job =
  rows :: "row list"
  totalRowCount :: nat
  settled :: "outcome option"
  txs :: "(listener \<times> phase) list"
  attempts :: "row list list"
  failed_log :: string
  console :: "string list"
  unhandled :: nat

definition resolve :: "nat \<Rightarrow> job \<Rightarrow> job" where
  "resolve n s = (if settled s = None then s\<lparr>settled := Some (Resolved n)\<rparr> else s)"

definition reject :: "nat \<Rightarrow> string \<Rightarrow> job \<Rightarrow> job" where
  "reject n msg s = (if settled s = None then s\<lparr>settled := Some (Rejected n msg)\<rparr> else s)"

definition log_line :: "string \<Rightarrow> job \<Rightarrow> job" where
  "log_line l s = s\<lparr>console := console s @ [l]\<rparr>"

definition stopped_message :: "string \<Rightarrow> string" where
  "stopped_message tableName = ''Stopped processing '' @ tableName @ '' due to an error.''"

definition read_error_message :: "string \<Rightarrow> string \<Rightarrow> string" where
  "read_error_message tableName e = ''Error reading CSV file for '' @ tableName @ '': '' @ e"

definition progress_message :: "listener \<Rightarrow> nat \<Rightarrow> string" where
  "progress_message l n =
     (case l of
        OnData \<Rightarrow> ''Total rows inserted into Customers tableso far: '' @ show_nat n
      | OnEnd \<Rightarrow> ''Total rows inserted into Organizations table so far: '' @ show_nat n)"

text \<open>
  \<^verbatim>\<open>logFailedRows(rows)\<close>: nothing for an empty list; otherwise one
  \<^verbatim>\<open>fs.appendFileSync\<close> of the joined JSON texts and a line feed. The call raises when the
  file system refuses the append (\<open>fs_ok\<close> false), which is the result \<open>None\<close>.
\<close>

definition logData :: "row list \<Rightarrow> string" where
  "logData rs = join [CHR 0x0A] (map JSON_stringify rs)"

definition logFailedRows :: "bool \<Rightarrow> row list \<Rightarrow> job \<Rightarrow> job option" where
  "logFailedRows fs_ok rs s =
     (if length rs > 0 then
        (if fs_ok then
           Some (log_line ''Failed rows logged to failed_rows.log''
                   (s\<lparr>failed_log := failed_log s @ logData rs @ [CHR 0x0A]\<rparr>))
         else None)
      else Some s)"

definition start_transaction :: "listener \<Rightarrow> job \<Rightarrow> job" where
  "start_transaction l s = s\<lparr>txs := txs s @ [(l, Started)]\<rparr>"

text \<open>The \<^verbatim>\<open>'data'\<close> listener up to its \<^verbatim>\<open>await\<close>.\<close>

definition on_data :: "nat \<Rightarrow> row \<Rightarrow> job \<Rightarrow> job" where
  "on_data batchSize r s =
     (let s1 = s\<lparr>rows := rows s @ [r]\<rparr>
      in if length (rows s1) = batchSize then start_transaction OnData s1 else s1)"

text \<open>The \<^verbatim>\<open>'end'\<close> listener up to its \<^verbatim>\<open>await\<close>, or to its end when the buffer is empty.\<close>

definition on_end :: "job \<Rightarrow> job" where
  "on_end s =
     (if length (rows s) > 0 then start_transaction OnEnd s
      else resolve (totalRowCount s) s)"

text \<open>The \<^verbatim>\<open>'error'\<close> listener.\<close>

definition on_error :: "string \<Rightarrow> string \<Rightarrow> job \<Rightarrow> job" where
  "on_error tableName e s = reject (totalRowCount s) (read_error_message tableName e) s"

definition set_phase :: "nat \<Rightarrow> phase \<Rightarrow> job \<Rightarrow> job" where
  "set_phase i p s = s\<lparr>txs := (txs s)[i := (fst (txs s ! i), p)]\<rparr>"

definition remove_tx :: "nat \<Rightarrow> job \<Rightarrow> job" where
  "remove_tx i s = s\<lparr>txs := take i (txs s) @ drop (Suc i) (txs s)\<rparr>"

text \<open>
  The transaction callback up to its \<^verbatim>\<open>await\<close>: \<^verbatim>\<open>trx(tableName).insert(rows)\<close> is issued
  with the shared array as it is at that moment.
\<close>

definition tx_body :: "nat \<Rightarrow> job \<Rightarrow> job" where
  "tx_body i s =
     (if i < length (txs s) \<and> snd (txs s ! i) = Started
      then set_phase i Inserting (s\<lparr>attempts := attempts s @ [rows s]\<rparr>)
      else s)"

text \<open>
  The rest of the transaction callback, run when the insert settles: on success the
  counter grows by \<^verbatim>\<open>rows.length\<close> as it is now and the callback returns, after which
  the library commits; on failure the callback throws and the library rolls back.
\<close>

definition insert_done :: "nat \<Rightarrow> bool \<Rightarrow> job \<Rightarrow> job" where
  "insert_done i ok s =
     (if i < length (txs s) \<and> snd (txs s ! i) = Inserting then
        (if ok then
           (let s1 = s\<lparr>totalRowCount := totalRowCount s + length (rows s)\<rparr>
            in set_phase i BodyDone
                 (log_line (progress_message (fst (txs s ! i)) (totalRowCount s1)) s1))
         else set_phase i BodyThrew s)
      else s)"

text \<open>
  The rest of a listener, run when \<^verbatim>\<open>db.transaction(...)\<close> settles. It fulfils only after
  the callback has returned (the commit went through). It rejects when the transaction
  could not begin, when the callback threw, or when the commit failed; the \<^verbatim>\<open>catch\<close>
  block then logs the shared array and rejects the job's promise, unless the logging
  raises, in which case the exception leaves the listener before \<^verbatim>\<open>reject\<close> is reached.
\<close>

definition tx_done :: "string \<Rightarrow> nat \<Rightarrow> tx_result \<Rightarrow> job \<Rightarrow> job" where
  "tx_done tableName i res s =
     (if i < length (txs s) then
        (let l = fst (txs s ! i); p = snd (txs s ! i); s1 = remove_tx i s
         in case res of
              Committed \<Rightarrow>
                (if p = BodyDone then
                   (case l of
                      OnData \<Rightarrow> s1\<lparr>rows := []\<rparr>
                    | OnEnd \<Rightarrow> resolve (totalRowCount s1) s1)
                 else s)
            | Failed fs_ok \<Rightarrow>
                (if p = Inserting then s
                 else
                   (case logFailedRows fs_ok (rows s1) s1 of
                      None \<Rightarrow> s1\<lparr>unhandled := Suc (unhandled s1)\<rparr>
                    | Some s2 \<Rightarrow> reject (totalRowCount s2) (stopped_message tableName) s2)))
      else s)"

fun step :: "nat \<Rightarrow> string \<Rightarrow> job \<Rightarrow> event \<Rightarrow> job" where
  "step batchSize tableName s (Data r) = on_data batchSize r s"
| "step batchSize tableName s End = on_end s"
| "step batchSize tableName s (Error e) = on_error tableName e s"
| "step batchSize tableName s ReadError = s\<lparr>unhandled := Suc (unhandled s)\<rparr>"
| "step batchSize tableName s (Body i) = tx_body i s"
| "step batchSize tableName s (InsertDone i ok) = insert_done i ok s"
| "step batchSize tableName s (TxDone i res) = tx_done tableName i res s"

text \<open>
  An event is delivered while the process lives: after an exception that nothing catches
  the process has ended, and no listener runs any more.
\<close>

definition deliver :: "nat \<Rightarrow> string \<Rightarrow> job \<Rightarrow> event \<Rightarrow> job" where
  "deliver batchSize tableName s e =
     (if unhandled s > 0 then s else step batchSize tableName s e)"

definition run :: "nat \<Rightarrow> string \<Rightarrow> event list \<Rightarrow> job \<Rightarrow> job" where
  "run batchSize tableName es s = foldl (deliver batchSize tableName) s es"

text \<open>
  The state at the call: empty buffer, counter zero, promise pending; the log file and
  the console are what earlier jobs left. The file and the database handle of the source
  function are represented by the schedule: what the parser stream of the file emits and
  how the database answers.
\<close>

definition new_job :: "string \<Rightarrow> string list \<Rightarrow> job" where
  "new_job lg con =
     \<lparr>rows = [], totalRowCount = 0, settled = None, txs = [], attempts = [],
      failed_log = lg, console = con, unhandled = 0\<rparr>"

definition insertDataWithSummary :: "string \<Rightarrow> nat \<Rightarrow> event list \<Rightarrow> string \<Rightarrow> string list \<Rightarrow> job" where
  "insertDataWithSummary tableName batchSize es lg con = run batchSize tableName es (new_job lg con)"

section \<open>The orchestrator: \<^verbatim>\<open>processDataDump\<close>\<close>

text \<open>
  The awaited steps outside the jobs, in the order of the source: the three \<^verbatim>\<open>mkdir\<close>
  calls, \<^verbatim>\<open>downloadFile\<close>, \<^verbatim>\<open>extractTar\<close> and \<^verbatim>\<open>setupDatabase\<close> before the \<^verbatim>\<open>try\<close>
  block; inside it the two \<^verbatim>\<open>PRAGMA\<close> statements and the two \<^verbatim>\<open>createTable\<close> calls of
  \<^verbatim>\<open>createTables\<close>; in the \<^verbatim>\<open>finally\<close> block two \<^verbatim>\<open>PRAGMA\<close> statements and
  \<^verbatim>\<open>db.destroy\<close>.
\<close>

datatype io_step =
    MkdirTmp | MkdirExtracted | MkdirOut | DownloadFile | ExtractTar | SetupDatabase
  | PragmaForeignKeysOff | PragmaSynchronousOff | CreateCustomers | CreateOrganizations
  | PragmaForeignKeysOn | PragmaSynchronousFull | Destroy


datatype resource = Customers | Organizations

text \<open>
  How the call ends: it returns, it raises (its promise is rejected with the error of
  the step), the process is ended by an exception that nothing catches, or the call is
  still waiting for a promise when the schedule is over.
\<close>

datatype completion = Returned | Raised io_step | Crashed | Pending


text \<open>
  The state of a run: how the call ended, the console, the log file, the tables whose job
  was started, the two jobs (\<open>None\<close> before \<^verbatim>\<open>insertDataWithSummary\<close> is called for the
  resource), the job whose promise the call awaits, and the two counters. The console and
  the log file are shared by the two jobs.
\<close>

record world =
  completion :: completion
  out :: "string list"
  failed_rows_log :: string
  started :: "string list"
  customers_job :: "job option"
  organizations_job :: "job option"
  awaiting :: "resource option"
  customerRowsInserted :: nat
  organizationRowsInserted :: nat

fun rows_of :: "outcome \<Rightarrow> nat" where
  "rows_of (Resolved n) = n"
| "rows_of (Rejected n msg) = n"

definition tableName_of :: "resource \<Rightarrow> string" where
  "tableName_of r = (case r of Customers \<Rightarrow> ''customers'' | Organizations \<Rightarrow> ''organizations'')"

definition csv_of :: "resource \<Rightarrow> string" where
  "csv_of r = (case r of Customers \<Rightarrow> ''customers.csv'' | Organizations \<Rightarrow> ''organizations.csv'')"



definition job_of :: "resource \<Rightarrow> world \<Rightarrow> job option" where
  "job_of r w = (case r of Customers \<Rightarrow> customers_job w | Organizations \<Rightarrow> organizations_job w)"

definition set_job :: "resource \<Rightarrow> job \<Rightarrow> world \<Rightarrow> world" where
  "set_job r j w =
     (case r of
        Customers \<Rightarrow> w\<lparr>customers_job := Some j\<rparr>
      | Organizations \<Rightarrow> w\<lparr>organizations_job := Some j\<rparr>)"

definition starting_line :: "resource \<Rightarrow> string" where
  "starting_line r = ''Starting insertion for '' @ csv_of r @ ''...''"

definition finished_line :: "resource \<Rightarrow> nat \<Rightarrow> string" where
  "finished_line r n = ''Finished inserting '' @ csv_of r @ ''. Total inserted: '' @ show_nat n"

definition stopped_line :: "resource \<Rightarrow> nat \<Rightarrow> string" where
  "stopped_line r n =
     ''Inserted '' @ show_nat n @ '' rows into '' @ tableName_of r @ '' table before stopping.''"

definition total_line :: "resource \<Rightarrow> nat \<Rightarrow> string" where
  "total_line r n = ''Total rows inserted into '' @ tableName_of r @ '' table: '' @ show_nat n"

text \<open>
  A \<^verbatim>\<open>try\<close> block of a resource up to its \<^verbatim>\<open>await\<close>: the job is called with the default
  \<^verbatim>\<open>batchSize = 100\<close>.
\<close>

definition start_job :: "resource \<Rightarrow> world \<Rightarrow> world" where
  "start_job r w =
     (let w1 = w\<lparr>out := out w @ [starting_line r],
                 started := started w @ [tableName_of r],
                 awaiting := Some r\<rparr>
      in set_job r (new_job (failed_rows_log w1) (out w1)) w1)"

text \<open>
  The line a resource's \<^verbatim>\<open>try\<close> block prints when the promise is fulfilled, or its
  \<^verbatim>\<open>catch\<close> block when it is rejected; the \<^verbatim>\<open>catch\<close> block reads the
  \<^verbatim>\<open>totalRowCount\<close> of the rejection and not its message.
\<close>

definition result_line :: "resource \<Rightarrow> outcome \<Rightarrow> string" where
  "result_line r x =
     (case x of Resolved n \<Rightarrow> finished_line r n | Rejected n msg \<Rightarrow> stopped_line r n)"

text \<open>
  What follows the \<^verbatim>\<open>await\<close>, run when the awaited promise settles: the counter of the
  resource is assigned and the line printed; after the first resource the second job is
  called, after the second the totals are printed and the \<^verbatim>\<open>try\<close> block is left.
\<close>

definition resume :: "resource \<Rightarrow> outcome \<Rightarrow> world \<Rightarrow> world" where
  "resume r x w =
     (case r of
        Customers \<Rightarrow>
          start_job Organizations
            (w\<lparr>customerRowsInserted := rows_of x, out := out w @ [result_line Customers x]\<rparr>)
      | Organizations \<Rightarrow>
          w\<lparr>organizationRowsInserted := rows_of x,
            out := out w @
              [result_line Organizations x,
               ''Data insertion process completed.'',
               total_line Customers (customerRowsInserted w),
               total_line Organizations (rows_of x)],
            awaiting := None\<rparr>)"

text \<open>
  One event of the schedule. It is delivered to its job, which writes to the shared
  console and log file. An exception that nothing catches ends the process. When the
  event settles the promise that the call awaits, the call goes on at once; the stream
  and the transactions of the settled job are not stopped, so its later events occur
  beside the next job. An event of a job that has not been called cannot occur.
\<close>

definition occur :: "world \<Rightarrow> resource \<times> event \<Rightarrow> world" where
  "occur w re =
     (if completion w = Crashed then w
      else
        (case job_of (fst re) w of
           None \<Rightarrow> w
         | Some j \<Rightarrow>
             (let j' = deliver 100 (tableName_of (fst re))
                         (j\<lparr>failed_log := failed_rows_log w, console := out w\<rparr>) (snd re);
                  w1 = set_job (fst re) j' (w\<lparr>failed_rows_log := failed_log j', out := console j'\<rparr>)
              in if unhandled j' > 0 then w1\<lparr>completion := Crashed\<rparr>
                 else if awaiting w1 = Some (fst re) then
                   (case settled j' of None \<Rightarrow> w1 | Some x \<Rightarrow> resume (fst re) x w1)
                 else w1)))"





section \<open>The entry point: \<^verbatim>\<open>main\<close>\<close>

text \<open>
  \<open>exit_status\<close> is the status the process ends with: the argument of
  \<^verbatim>\<open>process.exit\<close> in the \<^verbatim>\<open>finally\<close> block when \<^verbatim>\<open>processDataDump\<close> has returned or
  raised, 1 when an exception that nothing catches has ended the process before, and
  \<open>None\<close> while \<^verbatim>\<open>main\<close> still awaits. \<open>stderr\<close> holds the errors passed to
  \<^verbatim>\<open>console.error\<close>.
\<close>

record process =
  stdout :: "string list"
  stderr :: "io_step list"
  exit_status :: "nat option"



section \<open>Auxiliary notions for the statements\<close>


text \<open>
  A schedule in which the database settles every transaction before the stream delivers
  its next event, and every insert and commit goes through: \<open>feed\<close> delivers the records,
  \<open>n\<close> being the number of records in the buffer, and \<open>serialized\<close> ends the stream
  after them.
\<close>

definition commit_ok :: "event list" where
  "commit_ok = [Body 0, InsertDone 0 True, TxDone 0 Committed]"

fun feed :: "nat \<Rightarrow> nat \<Rightarrow> row list \<Rightarrow> event list" where
  "feed batchSize n [] = []"
| "feed batchSize n (r # rs) =
     (if Suc n = batchSize then Data r # commit_ok @ feed batchSize 0 rs
      else Data r # feed batchSize (Suc n) rs)"

definition serialized :: "nat \<Rightarrow> row list \<Rightarrow> event list" where
  "serialized batchSize rs =
     feed batchSize 0 rs @ [End] @ (if length rs mod batchSize = 0 then [] else commit_ok)"

text \<open>
  A list cut into consecutive pieces of \<open>c\<close> elements: the complete pieces, and with the
  shorter rest as last piece when there is one.
\<close>

function full_batches :: "nat \<Rightarrow> 'a list \<Rightarrow> 'a list list" where
  "full_batches c xs =
     (if c = 0 \<or> length xs < c then [] else take c xs # full_batches c (drop c xs))"
  by pat_completeness auto
termination
  by (relation "measure (\<lambda>(c, xs). length xs)") auto

declare full_batches.simps [simp del]

definition batches :: "nat \<Rightarrow> 'a list \<Rightarrow> 'a list list" where
  "batches c xs =
     full_batches c xs @
     (if length xs mod c = 0 then [] else [drop (c * (length xs div c)) xs])"

section \<open>Properties of one job\<close>

lemmas job_defs = on_data_def on_end_def on_error_def tx_body_def insert_done_def tx_done_def
  start_transaction_def set_phase_def remove_tx_def resolve_def reject_def log_line_def
  logFailedRows_def

text \<open>The promise settles once: no step changes a settled promise.\<close>

lemma settled_step_sticky:
  "settled s = Some x \<Longrightarrow> settled (step batchSize tableName s e) = Some x"
  by (cases e) (auto simp: job_defs Let_def split: tx_result.splits listener.splits option.splits)

lemma settled_deliver_sticky:
  "settled s = Some x \<Longrightarrow> settled (deliver batchSize tableName s e) = Some x"
  by (simp add: deliver_def settled_step_sticky)

lemma settled_run_sticky:
  "settled s = Some x \<Longrightarrow> settled (run batchSize tableName es s) = Some x"
  unfolding run_def
  by (induction es arbitrary: s) (simp_all add: settled_deliver_sticky)

text \<open>The counter never decreases, whatever the schedule.\<close>

lemma totalRowCount_step_mono:
  "totalRowCount s \<le> totalRowCount (step batchSize tableName s e)"
  by (cases e) (auto simp: job_defs Let_def split: tx_result.splits listener.splits option.splits)

lemma totalRowCount_deliver_mono:
  "totalRowCount s \<le> totalRowCount (deliver batchSize tableName s e)"
  by (simp add: deliver_def totalRowCount_step_mono)

lemma totalRowCount_run_mono:
  "totalRowCount s \<le> totalRowCount (run batchSize tableName es s)"
  unfolding run_def
proof (induction es arbitrary: s)
  case Nil
  show ?case by simp
next
  case (Cons e es)
  have "totalRowCount s \<le> totalRowCount (deliver batchSize tableName s e)"
    by (rule totalRowCount_deliver_mono)
  also have "\<dots> \<le> totalRowCount (foldl (deliver batchSize tableName) (deliver batchSize tableName s e) es)"
    by (rule Cons.IH)
  finally show ?case by simp
qed

text \<open>Once the process has ended, nothing changes any more.\<close>

lemma run_dead: "0 < unhandled s \<Longrightarrow> run batchSize tableName es s = s"
  unfolding run_def
  by (induction es) (simp_all add: deliver_def)



subsection \<open>Serialized schedules\<close>

lemma run_append: "run c t (es @ fs) s = run c t fs (run c t es s)"
  by (simp add: run_def)

lemma run_Cons: "unhandled s = 0 \<Longrightarrow> run c t (e # es) s = run c t es (step c t s e)"
  by (simp add: run_def deliver_def)

lemma commit_ok_on_data:
  assumes "txs s = [(OnData, Started)]" and "unhandled s = 0"
  shows "rows (run c t commit_ok s) = []"
    and "txs (run c t commit_ok s) = []"
    and "attempts (run c t commit_ok s) = attempts s @ [rows s]"
    and "totalRowCount (run c t commit_ok s) = totalRowCount s + length (rows s)"
    and "settled (run c t commit_ok s) = settled s"
    and "failed_log (run c t commit_ok s) = failed_log s"
    and "unhandled (run c t commit_ok s) = 0"
  using assms by (simp_all add: commit_ok_def run_def deliver_def job_defs)

lemma full_batches_short: "length xs < c \<Longrightarrow> full_batches c xs = []"
  by (simp add: full_batches.simps)

lemma full_batches_step:
  "0 < length xs \<Longrightarrow> full_batches (length xs) (xs @ ys) = xs # full_batches (length xs) ys"
  by (subst full_batches.simps) simp

lemma drop_batch: "length b = c \<Longrightarrow> drop (c + c * k) (b @ rs) = drop (c * k) rs"
proof -
  assume b: "length b = c"
  have 1: "drop (c * k) (drop c (b @ rs)) = drop (c + c * k) (b @ rs)"
    by (simp only: drop_drop add.commute)
  have 2: "drop c (b @ rs) = rs"
    using b by simp
  show ?thesis
    by (simp only: 1 [symmetric] 2)
qed

lemma feed_run:
  assumes "txs s = []" and "length (rows s) = n" and "n < c" and "xs = rows s @ rs"
    and "unhandled s = 0"
  shows "txs (run c t (feed c n rs) s) = []
    \<and> unhandled (run c t (feed c n rs) s) = 0
    \<and> settled (run c t (feed c n rs) s) = settled s
    \<and> failed_log (run c t (feed c n rs) s) = failed_log s
    \<and> attempts (run c t (feed c n rs) s) = attempts s @ full_batches c xs
    \<and> rows (run c t (feed c n rs) s) = drop (c * (length xs div c)) xs
    \<and> totalRowCount (run c t (feed c n rs) s) = totalRowCount s + c * (length xs div c)"
  using assms
proof (induction rs arbitrary: s n xs)
  case Nil
  then show ?case
    by (simp add: run_def full_batches_short)
next
  case (Cons r rs)
  let ?s1 = "step c t s (Data r)"
  show ?case
  proof (cases "Suc n = c")
    case True
    have s1: "txs ?s1 = [(OnData, Started)]" "rows ?s1 = rows s @ [r]" "attempts ?s1 = attempts s"
      "totalRowCount ?s1 = totalRowCount s" "settled ?s1 = settled s" "failed_log ?s1 = failed_log s"
      "unhandled ?s1 = 0"
      using Cons.prems True by (simp_all add: on_data_def start_transaction_def)
    let ?s2 = "run c t commit_ok ?s1"
    note c = commit_ok_on_data [OF s1(1) s1(7), of c t]
    have len: "length (rows s @ [r]) = c"
      using Cons.prems True by simp
    have p: "txs ?s2 = []" "length (rows ?s2) = 0" "0 < c" "rs = rows ?s2 @ rs"
      "unhandled ?s2 = 0"
    proof -
      show "txs ?s2 = []" by (rule c(2))
      show "length (rows ?s2) = 0" by (simp only: c(1) list.size)
      show "0 < c" using True by arith
      show "rs = rows ?s2 @ rs" by (simp only: c(1) append_Nil)
      show "unhandled ?s2 = 0" by (rule c(7))
    qed
    note ih = Cons.IH [OF p, unfolded c s1]
    have ev: "run c t (feed c n (r # rs)) s = run c t (feed c 0 rs) ?s2"
      using True Cons.prems(5) by (simp add: run_Cons run_append)
    have xs: "xs = (rows s @ [r]) @ rs"
      using Cons.prems(4) by simp
    have fb: "full_batches c xs = (rows s @ [r]) # full_batches c rs"
      unfolding xs using full_batches_step [of "rows s @ [r]" rs] len by simp
    have eq: "length xs = c + length rs"
      unfolding xs using len by simp
    have dv: "length xs div c = Suc (length rs div c)"
      unfolding eq using p(3) by (simp add: div_add_self1)
    have dr: "drop (c + c * (length rs div c)) xs = drop (c * (length rs div c)) rs"
      unfolding xs by (rule drop_batch [OF len])
    have tot: "totalRowCount s + length (rows s @ [r]) + c * (length rs div c)
        = totalRowCount s + (c + c * (length rs div c))"
      unfolding len by simp
    show ?thesis
      unfolding ev using ih len by (simp add: fb dv dr del: feed.simps step.simps)
  next
    case False
    have s1: "txs ?s1 = []" "rows ?s1 = rows s @ [r]" "attempts ?s1 = attempts s"
      "totalRowCount ?s1 = totalRowCount s" "settled ?s1 = settled s" "failed_log ?s1 = failed_log s"
      "unhandled ?s1 = 0"
      using Cons.prems False by (simp_all add: on_data_def start_transaction_def)
    have p: "txs ?s1 = []" "length (rows ?s1) = Suc n" "Suc n < c" "xs = rows ?s1 @ rs"
      "unhandled ?s1 = 0"
    proof -
      show "txs ?s1 = []" by (rule s1(1))
      show "length (rows ?s1) = Suc n" using Cons.prems(2) by (simp only: s1(2)) simp
      show "Suc n < c" using Cons.prems(3) False by arith
      show "xs = rows ?s1 @ rs" using Cons.prems(4) by (simp only: s1(2)) simp
      show "unhandled ?s1 = 0" by (rule s1(7))
    qed
    note ih = Cons.IH [OF p, unfolded s1]
    have ev: "run c t (feed c n (r # rs)) s = run c t (feed c (Suc n) rs) ?s1"
      using False Cons.prems(5) by (simp add: run_Cons)
    show ?thesis
      unfolding ev using ih by (simp del: feed.simps step.simps)
  qed
qed

lemma commit_ok_on_end:
  assumes "txs s = [(OnEnd, Started)]" and "settled s = None" and "unhandled s = 0"
  shows "txs (run c t commit_ok s) = []"
    and "attempts (run c t commit_ok s) = attempts s @ [rows s]"
    and "settled (run c t commit_ok s) = Some (Resolved (totalRowCount s + length (rows s)))"
    and "failed_log (run c t commit_ok s) = failed_log s"
  using assms by (simp_all add: commit_ok_def run_def deliver_def job_defs)

lemma length_full_batches: "0 < c \<Longrightarrow> length (full_batches c xs) = length xs div c"
proof (induction c xs rule: full_batches.induct)
  case (1 c xs)
  show ?case
  proof (cases "length xs < c")
    case True
    then show ?thesis by (simp add: full_batches.simps)
  next
    case False
    then have "length (full_batches c xs) = Suc (length (drop c xs) div c)"
      using 1 by (subst full_batches.simps) simp
    also have "\<dots> = length xs div c"
      using False 1(2) by (simp add: le_div_geq)
    finally show ?thesis .
  qed
qed

lemma set_full_batches: "b \<in> set (full_batches c xs) \<Longrightarrow> length b = c"
proof (induction c xs rule: full_batches.induct)
  case (1 c xs)
  show ?case
  proof (cases "c = 0 \<or> length xs < c")
    case True
    then show ?thesis using 1(2) by (simp add: full_batches.simps)
  next
    case False
    then have "b = take c xs \<or> b \<in> set (full_batches c (drop c xs))"
      using 1(2) by (subst (asm) full_batches.simps) simp
    then show ?thesis
      using False 1(1) by auto
  qed
qed

lemma concat_full_batches:
  "0 < c \<Longrightarrow> concat (full_batches c xs) @ drop (c * (length xs div c)) xs = xs"
proof (induction c xs rule: full_batches.induct)
  case (1 c xs)
  show ?case
  proof (cases "length xs < c")
    case True
    then show ?thesis by (simp add: full_batches.simps)
  next
    case False
    have dv: "length xs div c = Suc (length (drop c xs) div c)"
      using False 1(2) by (simp add: le_div_geq)
    have dr: "drop (c * (length xs div c)) xs = drop (c * (length (drop c xs) div c)) (drop c xs)"
      unfolding dv by (simp only: drop_drop mult_Suc_right add.commute)
    have ih: "concat (full_batches c (drop c xs)) @ drop (c * (length (drop c xs) div c)) (drop c xs) = drop c xs"
      using False 1 by simp
    have "concat (full_batches c xs) @ drop (c * (length xs div c)) xs
        = take c xs @ (concat (full_batches c (drop c xs)) @ drop (c * (length (drop c xs) div c)) (drop c xs))"
      unfolding dr using False 1(2) by (subst full_batches.simps) simp
    also have "\<dots> = xs"
      unfolding ih by simp
    finally show ?thesis .
  qed
qed

lemma length_remainder: "length (drop (c * (length xs div c)) xs) = length xs mod c"
  by (simp add: minus_mult_div_eq_mod)

lemma ceil_div:
  "0 < c \<Longrightarrow> (n + c - 1) div c = n div c + (if n mod c = 0 then 0 else (1::nat))"
proof -
  assume c: "0 < c"
  define q where "q = n div c"
  define r where "r = n mod c"
  have n: "n = c * q + r"
    unfolding q_def r_def by simp
  have r: "r < c"
    unfolding r_def using c by simp
  show ?thesis
  proof (cases "r = 0")
    case True
    have "(n + c - 1) div c = q"
    proof (rule div_nat_eqI)
      show "c * q \<le> n + c - 1" using n c by arith
      show "n + c - 1 < c * Suc q" using n c True by (simp add: algebra_simps)
    qed
    then show ?thesis
      using True by (simp add: q_def r_def)
  next
    case False
    have "(n + c - 1) div c = Suc q"
    proof (rule div_nat_eqI)
      show "c * Suc q \<le> n + c - 1" using n c False by (simp add: algebra_simps)
      show "n + c - 1 < c * Suc (Suc q)" using n r by (simp add: algebra_simps)
    qed
    then show ?thesis
      using False by (simp add: q_def r_def)
  qed
qed

lemma length_batches: "0 < c \<Longrightarrow> length (batches c xs) = (length xs + c - 1) div c"
  using ceil_div [of c "length xs"] by (simp add: batches_def length_full_batches)

lemma concat_batches: "0 < c \<Longrightarrow> concat (batches c xs) = xs"
proof -
  assume c: "0 < c"
  have "drop (c * (length xs div c)) xs = []" if "length xs mod c = 0"
    using that length_remainder [of c xs] by simp
  then show ?thesis
    using concat_full_batches [OF c, of xs] by (auto simp: batches_def)
qed

lemma butlast_batches: "b \<in> set (butlast (batches c xs)) \<Longrightarrow> length b = c"
  by (auto simp: batches_def butlast_append dest: set_full_batches in_set_butlastD split: if_splits)

lemma last_batches:
  assumes "0 < c" and "xs \<noteq> []"
  shows "length (last (batches c xs)) = (if length xs mod c = 0 then c else length xs mod c)"
proof (cases "length xs mod c = 0")
  case True
  have "full_batches c xs \<noteq> []"
  proof
    assume "full_batches c xs = []"
    then have "length xs div c = 0"
      using length_full_batches [OF assms(1), of xs] by simp
    then have "length xs = 0"
      using True assms(1) by (metis div_mult_mod_eq add_0 mult_0)
    then show False using assms(2) by simp
  qed
  then have "last (full_batches c xs) \<in> set (full_batches c xs)"
    by (rule last_in_set)
  then show ?thesis
    using True by (simp add: batches_def set_full_batches)
next
  case False
  then show ?thesis
    by (simp add: batches_def minus_mult_div_eq_mod)
qed

text \<open>
  When every transaction settles before the next event of the stream and nothing fails,
  the job inserts the records in consecutive batches of \<open>c\<close> records, the rest last, and
  is fulfilled with the number of records; the log file is untouched.
\<close>

theorem serialized_run:
  assumes "0 < c"
  shows "settled (insertDataWithSummary t c (serialized c rs) lg con) = Some (Resolved (length rs))
    \<and> attempts (insertDataWithSummary t c (serialized c rs) lg con) = batches c rs
    \<and> failed_log (insertDataWithSummary t c (serialized c rs) lg con) = lg"
proof -
  let ?s0 = "new_job lg con"
  let ?s1 = "run c t (feed c 0 rs) ?s0"
  let ?rem = "drop (c * (length rs div c)) rs"
  have f: "txs ?s1 = []" "settled ?s1 = None" "failed_log ?s1 = lg"
    "attempts ?s1 = full_batches c rs" "rows ?s1 = ?rem"
    "totalRowCount ?s1 = c * (length rs div c)" "unhandled ?s1 = 0"
    using feed_run [of ?s0 0 c rs rs t] assms by (simp_all add: new_job_def)
  have total: "c * (length rs div c) + length rs mod c = length rs"
    by simp
  show ?thesis
  proof (cases "length rs mod c = 0")
    case True
    then have rem: "?rem = []"
      using length_remainder [of c rs] by simp
    have "insertDataWithSummary t c (serialized c rs) lg con = step c t ?s1 End"
      using True f(7) by (simp add: insertDataWithSummary_def serialized_def run_append run_def deliver_def)
    moreover have "settled (step c t ?s1 End) = Some (Resolved (length rs))"
      "attempts (step c t ?s1 End) = full_batches c rs" "failed_log (step c t ?s1 End) = lg"
      using total True by (simp_all add: on_end_def resolve_def f rem)
    ultimately show ?thesis
      using True by (simp add: batches_def)
  next
    case False
    then have rem: "?rem \<noteq> []"
      using length_remainder [of c rs] by auto
    let ?s2 = "step c t ?s1 End"
    have s2: "txs ?s2 = [(OnEnd, Started)]" "settled ?s2 = None" "attempts ?s2 = full_batches c rs"
      "rows ?s2 = ?rem" "totalRowCount ?s2 = c * (length rs div c)" "failed_log ?s2 = lg"
      "unhandled ?s2 = 0"
      using rem by (simp_all add: on_end_def start_transaction_def f)
    note e = commit_ok_on_end [OF s2(1,2,7), of c t, unfolded s2]
    have "insertDataWithSummary t c (serialized c rs) lg con = run c t commit_ok ?s2"
      using False f(7) by (simp add: insertDataWithSummary_def serialized_def run_append run_Cons)
    then show ?thesis
      using e False total by (simp add: batches_def minus_mult_div_eq_mod del: step.simps)
  qed
qed


text \<open>
  The same schedule cut short by an error of the stream: the job is rejected with the
  rows of the complete batches, and the rest of the buffer is never inserted.
\<close>

lemma source_error_after_full_batches:
  assumes "0 < c"
  shows "settled (insertDataWithSummary t c (feed c 0 rs @ [Error e]) lg con)
       = Some (Rejected (c * (length rs div c)) (read_error_message t e))
    \<and> attempts (insertDataWithSummary t c (feed c 0 rs @ [Error e]) lg con) = full_batches c rs
    \<and> rows (insertDataWithSummary t c (feed c 0 rs @ [Error e]) lg con)
       = drop (c * (length rs div c)) rs"
proof -
  let ?s1 = "run c t (feed c 0 rs) (new_job lg con)"
  have f: "settled ?s1 = None" "attempts ?s1 = full_batches c rs"
    "rows ?s1 = drop (c * (length rs div c)) rs" "totalRowCount ?s1 = c * (length rs div c)"
    "unhandled ?s1 = 0"
    using feed_run [of "new_job lg con" 0 c rs rs t] assms by (simp_all add: new_job_def)
  have "insertDataWithSummary t c (feed c 0 rs @ [Error e]) lg con = step c t ?s1 (Error e)"
    using f(5) by (simp add: insertDataWithSummary_def run_append run_def deliver_def)
  then show ?thesis
    by (simp add: on_error_def reject_def f)
qed

subsection \<open>The listeners do not pause the stream\<close>

text \<open>
  Claim C1 (the stream is paused while a commit is outstanding, so that no record enters
  the buffer then). The code has no pause: the \<^verbatim>\<open>'data'\<close> listener pushes every record it
  is given. With batch size 2, the second record starts a transaction; a third record
  delivered after the insert was issued and before it settles is in the buffer next to the
  batch being committed.
\<close>

theorem data_enters_buffer_while_commit_outstanding:
  "txs (insertDataWithSummary tableName 2 [Data a, Data b, Body 0, Data c] lg con) = [(OnData, Inserting)]
   \<and> attempts (insertDataWithSummary tableName 2 [Data a, Data b, Body 0, Data c] lg con) = [[a, b]]
   \<and> rows (insertDataWithSummary tableName 2 [Data a, Data b, Body 0, Data c] lg con) = [a, b, c]"
  by (simp add: insertDataWithSummary_def run_def deliver_def new_job_def job_defs)

text \<open>
  Claim C2 (after a failed commit the job reports the rows of the earlier batches, logs
  the failed batch, and hands no later record to the sink). Batch size 2, records a, b, c,
  every commit settled before the next record: the first commit fails, the batch is logged
  and the promise rejected with 0 rows. The buffer is not cleared and the stream is not
  stopped, so c is pushed, and at the end of the stream the \<^verbatim>\<open>'end'\<close> listener inserts
  the buffer: the failed batch again, and c with it.
\<close>

theorem later_records_attempted_after_failed_commit:
  "settled (insertDataWithSummary tableName 2
      [Data a, Data b, Body 0, InsertDone 0 False, TxDone 0 (Failed True),
       Data c, End, Body 0, InsertDone 0 True, TxDone 0 Committed] lg con)
     = Some (Rejected 0 (stopped_message tableName))
   \<and> failed_log (insertDataWithSummary tableName 2
      [Data a, Data b, Body 0, InsertDone 0 False, TxDone 0 (Failed True),
       Data c, End, Body 0, InsertDone 0 True, TxDone 0 Committed] lg con)
     = lg @ JSON_stringify a @ [CHR 0x0A] @ JSON_stringify b @ [CHR 0x0A]
   \<and> attempts (insertDataWithSummary tableName 2
      [Data a, Data b, Body 0, InsertDone 0 False, TxDone 0 (Failed True),
       Data c, End, Body 0, InsertDone 0 True, TxDone 0 Committed] lg con)
     = [[a, b], [a, b, c]]
   \<and> totalRowCount (insertDataWithSummary tableName 2
      [Data a, Data b, Body 0, InsertDone 0 False, TxDone 0 (Failed True),
       Data c, End, Body 0, InsertDone 0 True, TxDone 0 Committed] lg con)
     = 3"
  by (simp add: insertDataWithSummary_def run_def deliver_def new_job_def job_defs logData_def)

text \<open>
  Claim C3 (the running total grows only after the sink has confirmed the commit). The
  addition stands inside the transaction callback, after the insert and before the
  callback returns, so the total has grown while the transaction is still open; when the
  commit then fails, the rejection carries the rows of the batch that was rolled back.
\<close>

theorem total_counted_before_commit:
  "totalRowCount (insertDataWithSummary tableName 2
      [Data a, Data b, Body 0, InsertDone 0 True] lg con) = 2
   \<and> txs (insertDataWithSummary tableName 2
      [Data a, Data b, Body 0, InsertDone 0 True] lg con) = [(OnData, BodyDone)]
   \<and> settled (insertDataWithSummary tableName 2
      [Data a, Data b, Body 0, InsertDone 0 True, TxDone 0 (Failed True)] lg con)
     = Some (Rejected 2 (stopped_message tableName))"
  by (simp add: insertDataWithSummary_def run_def deliver_def new_job_def job_defs)

text \<open>
  Claim C4 (N records and capacity C give \<open>\<lceil>N / C\<rceil>\<close> commits of sizes C, ..., C and the
  rest). Batch size 2 and three records, no failure: when the third record arrives before
  the callback of the first transaction runs, the job makes one insert of three rows, and
  the \<^verbatim>\<open>'end'\<close> listener finds the buffer empty.
\<close>

theorem one_oversized_commit:
  "attempts (insertDataWithSummary tableName 2
      [Data a, Data b, Data c, Body 0, InsertDone 0 True, TxDone 0 Committed, End] lg con)
     = [[a, b, c]]
   \<and> settled (insertDataWithSummary tableName 2
      [Data a, Data b, Data c, Body 0, InsertDone 0 True, TxDone 0 Committed, End] lg con)
     = Some (Resolved 3)"
  by (simp add: insertDataWithSummary_def run_def deliver_def new_job_def job_defs)

subsection \<open>What a failed commit logs\<close>

text \<open>
  Claim C5 (a commit is all or nothing, and its failure carries the failed batch verbatim).
  The rejection of the job carries the running total and a message, and the \<^verbatim>\<open>catch\<close>
  block logs the shared array, not the rows that were handed to the insert. Batch size 2:
  the insert is issued with a and b, c arrives before it fails, and the log gets a, b
  and c.
\<close>

theorem failure_log_is_not_the_failed_batch:
  "attempts (insertDataWithSummary tableName 2
      [Data a, Data b, Body 0, Data c, InsertDone 0 False, TxDone 0 (Failed True)] lg con)
     = [[a, b]]
   \<and> failed_log (insertDataWithSummary tableName 2
      [Data a, Data b, Body 0, Data c, InsertDone 0 False, TxDone 0 (Failed True)] lg con)
     = lg @ JSON_stringify a @ [CHR 0x0A] @ JSON_stringify b @ [CHR 0x0A]
          @ JSON_stringify c @ [CHR 0x0A]
   \<and> settled (insertDataWithSummary tableName 2
      [Data a, Data b, Body 0, Data c, InsertDone 0 False, TxDone 0 (Failed True)] lg con)
     = Some (Rejected 0 (stopped_message tableName))"
  by (simp add: insertDataWithSummary_def run_def deliver_def new_job_def job_defs logData_def)

subsection \<open>A failure of the failure log\<close>

text \<open>
  Claim C7 (a failure of the logger never masks the commit error: the job still reports
  it). \<^verbatim>\<open>logFailedRows\<close> is called before \<^verbatim>\<open>reject\<close> and is not guarded. Batch size 2: the
  insert of a and b fails and the append to the log raises. The exception leaves the
  listener, the promise is never rejected, and the process ends: whatever the schedule
  holds after that, the job reports nothing.
\<close>

theorem logging_failure_prevents_rejection:
  "settled (insertDataWithSummary tableName 2
      [Data a, Data b, Body 0, InsertDone 0 False, TxDone 0 (Failed False)] lg con) = None
   \<and> unhandled (insertDataWithSummary tableName 2
      [Data a, Data b, Body 0, InsertDone 0 False, TxDone 0 (Failed False)] lg con) = 1
   \<and> failed_log (insertDataWithSummary tableName 2
      [Data a, Data b, Body 0, InsertDone 0 False, TxDone 0 (Failed False)] lg con) = lg
   \<and> insertDataWithSummary tableName 2
      ([Data a, Data b, Body 0, InsertDone 0 False, TxDone 0 (Failed False)] @ es) lg con
     = insertDataWithSummary tableName 2
      [Data a, Data b, Body 0, InsertDone 0 False, TxDone 0 (Failed False)] lg con"
proof -
  let ?es = "[Data a, Data b, Body 0, InsertDone 0 False, TxDone 0 (Failed False)]"
  let ?s = "insertDataWithSummary tableName 2 ?es lg con"
  have v: "settled ?s = None" "unhandled ?s = 1" "failed_log ?s = lg"
    by (simp_all add: insertDataWithSummary_def run_def deliver_def new_job_def job_defs)
  have "insertDataWithSummary tableName 2 (?es @ es) lg con = run 2 tableName es ?s"
    by (simp only: insertDataWithSummary_def run_append)
  also have "\<dots> = ?s"
    by (rule run_dead) (simp add: v)
  finally show ?thesis
    using v by simp
qed

subsection \<open>A decode error of the source\<close>

text \<open>
  Claim C8 (after a decode error the job reports the total of the batches committed
  before, and the partial buffer is not committed). The \<^verbatim>\<open>'error'\<close> listener rejects with
  the counter as it is and starts nothing, but it stops nothing either. Batch size 2,
  first schedule: c and the error arrive while the transaction of a and b has not begun;
  the job reports 0 rows, and then a, b and c are inserted and committed. Second
  schedule: c arrives after the insert was issued, the insert goes through, and the error
  arrives before the commit; the job reports 3 rows while a and b only were handed to the
  sink and their transaction is open.
\<close>

theorem partial_buffer_committed_after_source_error:
  "settled (insertDataWithSummary tableName 2
      [Data a, Data b, Data c, Error e, Body 0, InsertDone 0 True, TxDone 0 Committed] lg con)
     = Some (Rejected 0 (read_error_message tableName e))
   \<and> attempts (insertDataWithSummary tableName 2
      [Data a, Data b, Data c, Error e, Body 0, InsertDone 0 True, TxDone 0 Committed] lg con)
     = [[a, b, c]]
   \<and> totalRowCount (insertDataWithSummary tableName 2
      [Data a, Data b, Data c, Error e, Body 0, InsertDone 0 True, TxDone 0 Committed] lg con)
     = 3
   \<and> settled (insertDataWithSummary tableName 2
      [Data a, Data b, Body 0, Data c, InsertDone 0 True, Error e] lg con)
     = Some (Rejected 3 (read_error_message tableName e))
   \<and> attempts (insertDataWithSummary tableName 2
      [Data a, Data b, Body 0, Data c, InsertDone 0 True, Error e] lg con)
     = [[a, b]]
   \<and> txs (insertDataWithSummary tableName 2
      [Data a, Data b, Body 0, Data c, InsertDone 0 True, Error e] lg con)
     = [(OnData, BodyDone)]"
  by (simp add: insertDataWithSummary_def run_def deliver_def new_job_def job_defs)

subsection \<open>The text of the failure log\<close>

lemma hex_digit_not_newline: "hex_digit n \<noteq> CHR 0x0A"
proof -
  have "hex_digit n \<in> set ''0123456789abcdef''"
    unfolding hex_digit_def by (rule nth_mem) simp
  then show ?thesis by auto
qed

lemma quote_char_no_newline: "CHR 0x0A \<notin> set (quote_char c)"
  by (simp add: quote_char_def hex_digit_not_newline [symmetric])

lemma quote_json_no_newline: "CHR 0x0A \<notin> set (quote_json s)"
  by (simp add: quote_json_def quote_char_no_newline)

lemma property_json_no_newline: "CHR 0x0A \<notin> set (property_json kv)"
  by (simp add: property_json_def quote_json_no_newline)

lemma set_join: "set (join sep xs) \<subseteq> set sep \<union> (\<Union>x\<in>set xs. set x)"
  by (induction sep xs rule: join.induct) auto

lemma JSON_stringify_no_newline: "CHR 0x0A \<notin> set (JSON_stringify r)"
proof -
  have "CHR 0x0A \<notin> set (join '','' (map property_json r))"
    using set_join [of "'',''" "map property_json r"] property_json_no_newline by auto
  then show ?thesis by (simp add: JSON_stringify_def)
qed

lemma join_append_sep: "xs \<noteq> [] \<Longrightarrow> join sep xs @ sep = concat (map (\<lambda>x. x @ sep) xs)"
  by (induction sep xs rule: join.induct) simp_all

lemma count_newlines:
  "count_list (concat (map (\<lambda>r. JSON_stringify r @ [CHR 0x0A]) rs)) (CHR 0x0A) = length rs"
  by (induction rs) (simp_all add: JSON_stringify_no_newline)

text \<open>
  Claim C9, as amended. \<^verbatim>\<open>logFailedRows\<close> appends, for the rows it is given and in their
  order, the JSON text of each row followed by a line feed, and nothing else: the text
  holds as many line feeds as there are rows, none of them inside a row's JSON text. The
  function is not given the resource and reads no clock, so the lines carry neither.
\<close>

theorem logFailedRows_appends_one_line_per_row:
  "\<exists>s'. logFailedRows True rs s = Some s'
     \<and> failed_log s' = failed_log s @ concat (map (\<lambda>r. JSON_stringify r @ [CHR 0x0A]) rs)
     \<and> count_list (concat (map (\<lambda>r. JSON_stringify r @ [CHR 0x0A]) rs)) (CHR 0x0A) = length rs"
proof (cases "rs = []")
  case True
  then show ?thesis by (simp add: logFailedRows_def)
next
  case False
  then have "logData rs @ [CHR 0x0A] = concat (map (\<lambda>r. JSON_stringify r @ [CHR 0x0A]) rs)"
    using join_append_sep [of "map JSON_stringify rs" "[CHR 0x0A]"]
    by (simp add: logData_def comp_def)
  with False show ?thesis
    by (simp add: logFailedRows_def log_line_def count_newlines)
qed

text \<open>
  Claim C9 as stated fails: the job of the table \<^verbatim>\<open>customers\<close> gets one row, its insert
  fails, and the log then holds the JSON text of the row and a line feed; the name of the
  resource does not occur in it.
\<close>

theorem log_line_without_resource_name:
  "failed_log (insertDataWithSummary ''customers'' 100
        [Data [(''Index'', ''1'')], End, Body 0, InsertDone 0 False, TxDone 0 (Failed True)] [] [])
      = JSON_stringify [(''Index'', ''1'')] @ [CHR 0x0A]
   \<and> JSON_stringify [(''Index'', ''1'')]
      = [CHR ''{'', CHR 0x22, CHR ''I'', CHR ''n'', CHR ''d'', CHR ''e'', CHR ''x'', CHR 0x22,
         CHR '':'', CHR 0x22, CHR ''1'', CHR 0x22, CHR ''}'']
   \<and> \<not> sublist ''customers'' (JSON_stringify [(''Index'', ''1'')] @ [CHR 0x0A])"
proof -
  have "\<not> sublist ''customers'' (JSON_stringify [(''Index'', ''1'')] @ [CHR 0x0A])"
    by code_simp
  moreover have "JSON_stringify [(''Index'', ''1'')]
      = [CHR ''{'', CHR 0x22, CHR ''I'', CHR ''n'', CHR ''d'', CHR ''e'', CHR ''x'', CHR 0x22,
         CHR '':'', CHR 0x22, CHR ''1'', CHR 0x22, CHR ''}'']"
    by (simp add: JSON_stringify_def property_json_def quote_json_def quote_char_def)
  ultimately show ?thesis
    by (simp add: insertDataWithSummary_def run_def deliver_def new_job_def job_defs logData_def)
qed

section \<open>Properties of the orchestrator and of the entry point\<close>







text \<open>The jobs called, the promises settled and the counters, event by event.\<close>

lemma occur_crashed: "completion w = Crashed \<Longrightarrow> occur w re = w"
  by (simp add: occur_def)













end
